theory Spec2Isabelle
  imports Main "HOL-Library.AList"
begin

section \<open>JavaScript values and objects\<close>

text \<open>
  The library is event driven: every method runs to completion, and what happens
  later (a promise settles, a reaction job runs, the signaling session emits an event)
  arrives as a separate event. The model has one HOL function per method or handler
  of the source, working on a record of the object's fields, and a step function
  that dispatches events to them. Calls on the collaborators that are not part of
  the sources (the peer connection, the channel collection, the signaling session)
  are appended to a log, in the order the code makes them; the collaborators'
  methods and the listeners of the events the objects emit are taken not to throw.
\<close>

text \<open>
  A media stream. The class \<^verbatim>\<open>Stream\<close> is imported by
  \<^verbatim>\<open>remote_peer.ts\<close>; the code only reads its \<^verbatim>\<open>id()\<close>.
\<close>

datatype stream = Stream (stream_id: string)

text \<open>
  The values the options object, the arguments of \<^verbatim>\<open>addStream\<close> and
  \<^verbatim>\<open>addDataChannel\<close> and the settlement of a promise can carry. A promise
  object and a function object are named by a number, their identity.
\<close>

datatype js_value =
    JUndefined
  | JNull
  | JBool bool
  | JNum int
  | JStr string
  | JObj "(string \<times> js_value) list"
  | JStream stream
  | JPromise nat
  | JFunction nat

text \<open>Truthiness, as \<^verbatim>\<open>if (x)\<close> and \<^verbatim>\<open>x || y\<close> test it.\<close>

fun truthy :: "js_value \<Rightarrow> bool" where
  "truthy JUndefined = False"
| "truthy JNull = False"
| "truthy (JBool b) = b"
| "truthy (JNum n) = (n \<noteq> 0)"
| "truthy (JStr s) = (s \<noteq> [])"
| "truthy (JObj props) = True"
| "truthy (JStream s) = True"
| "truthy (JPromise q) = True"
| "truthy (JFunction f) = True"

text \<open>\<^verbatim>\<open>x == null\<close>: true of \<^verbatim>\<open>null\<close> and \<^verbatim>\<open>undefined\<close> only.\<close>

fun is_nullish :: "js_value \<Rightarrow> bool" where
  "is_nullish JUndefined = True"
| "is_nullish JNull = True"
| "is_nullish v = False"

text \<open>\<^verbatim>\<open>x === false\<close>.\<close>

fun is_false :: "js_value \<Rightarrow> bool" where
  "is_false (JBool b) = (\<not> b)"
| "is_false v = False"

text \<open>\<^verbatim>\<open>typeof x === 'string'\<close>.\<close>

fun is_string :: "js_value \<Rightarrow> bool" where
  "is_string (JStr s) = True"
| "is_string v = False"

text \<open>
  A plain object used as a dictionary (\<^verbatim>\<open>Record<string, T>\<close>): its properties in
  creation order. \<^verbatim>\<open>obj[k] = v\<close> is \<^const>\<open>AList.update\<close> (an existing key keeps
  its place, a new one goes last), \<^verbatim>\<open>obj[k]\<close> is \<^const>\<open>map_of\<close>,
  \<^verbatim>\<open>delete obj[k]\<close> is \<^const>\<open>AList.delete\<close>. The keys of an object are
  distinct.
\<close>

type_synonym 'a obj = "(string \<times> 'a) list"

definition is_digit :: "char \<Rightarrow> bool" where
  "is_digit c = (c \<in> set ''0123456789'')"

definition digits_value :: "string \<Rightarrow> int" where
  "digits_value s = foldl (\<lambda>n c. 10 * n + (of_char c - 48)) 0 s"

text \<open>
  An array index: the canonical decimal form of an integer below \<open>2^32 - 1\<close>.
  JavaScript enumerates such keys first, in ascending order.
\<close>

definition is_array_index :: "string \<Rightarrow> bool" where
  "is_array_index s =
     (s \<noteq> [] \<and> list_all is_digit s \<and> (length s = 1 \<or> hd s \<noteq> CHR ''0'')
      \<and> digits_value s < 4294967295)"

text \<open>
  \<^verbatim>\<open>Object.entries(obj)\<close>, and the order of \<^verbatim>\<open>for name, value of obj\<close> in
  CoffeeScript: array indices ascending, then the other keys in creation order.
\<close>

definition object_entries :: "'a obj \<Rightarrow> (string \<times> 'a) list" where
  "object_entries obj =
     sort_key (\<lambda>(k, v). digits_value k) (filter (\<lambda>(k, v). is_array_index k) obj)
     @ filter (\<lambda>(k, v). \<not> is_array_index k) obj"

text \<open>
  \<^verbatim>\<open>Object.assign(target, source)\<close>: every property of the source is set on the
  target. \<^verbatim>\<open>Object.assign({}, a, b)\<close> and \<^verbatim>\<open>{...a, ...b}\<close> are both
  \<open>object_assign (object_assign [] a) b\<close>.
\<close>

definition object_assign :: "'a obj \<Rightarrow> 'a obj \<Rightarrow> 'a obj" where
  "object_assign target source =
     fold (\<lambda>(k, v). AList.update k v) (object_entries source) target"

text \<open>How a promise settles: fulfilled with a value, or rejected with a reason.\<close>

datatype 'a outcome = Fulfilled 'a | Rejected js_value

text \<open>
  What a method returning a promise hands back: a promise that is already rejected
  (\<^verbatim>\<open>Promise.reject(reason)\<close>), or the promise \<open>x\<close> stands for.
\<close>

datatype 'a returned = Rejected_promise js_value | Promise_of 'a

section \<open>RemotePeer (remote_peer.ts)\<close>

text \<open>
  A promise of a stream, as \<^verbatim>\<open>local.streams\<close> and \<^verbatim>\<open>private_streams\<close>
  hold it: an object the caller handed in (a promise, or anything with a
  \<^verbatim>\<open>then\<close>), \<^verbatim>\<open>Promise.resolve(stream)\<close>, or
  \<^verbatim>\<open>Stream.createStream(config)\<close>.
\<close>

datatype stream_promise = Given js_value | Resolved stream | Created js_value

text \<open>
  The calls \<^verbatim>\<open>RemotePeer\<close> makes on its peer connection and on its channel
  collection, which the log \<open>effects\<close> keeps in order.
\<close>

datatype effect =
    PcAddStream stream
  | PcAddDataChannel string js_value
  | SetLocal "js_value obj"
  | PcConnect
  | PcClose

text \<open>
  The state of the promise \<^verbatim>\<open>connect_p\<close>, that is of
  \<^verbatim>\<open>Promise.all(stream_promises).then(callback)\<close>:
  \<^item> \<open>Awaiting entries results\<close>: \<^verbatim>\<open>Promise.all\<close> waits for the promises of
    \<open>entries\<close>; \<open>results\<close> holds the streams delivered so far, by position;
  \<^item> \<open>Transport\<close>: the callback has run and returned the promise of
    \<^verbatim>\<open>peer_connection.connect()\<close>, which \<^verbatim>\<open>connect_p\<close> now follows;
  \<^item> \<open>Done out\<close>: \<^verbatim>\<open>connect_p\<close> has settled.
\<close>

datatype chain =
    Awaiting "(string \<times> stream_promise) list" "stream option list"
  | Transport
  | Done "js_value outcome"

text \<open>
  The fields of a \<^verbatim>\<open>RemotePeer\<close> the connect protocol reads and writes.
  \<open>local_streams\<close> and \<open>local_channels\<close> are \<^verbatim>\<open>this.local.streams\<close> and
  \<^verbatim>\<open>this.local.channels\<close> of the shared local peer; \<open>auto_connect\<close> is
  \<^verbatim>\<open>this.options.auto_connect\<close> (\<open>JUndefined\<close> when the option is absent).
  \<open>allocated\<close> counts the promise chains \<^verbatim>\<open>connect()\<close> has built: the next one
  gets this number as its identity, and \<open>connect_p\<close> is \<open>None\<close> for
  \<^verbatim>\<open>undefined\<close> or the identity and state of the stored promise.
\<close>

record remote_peer =
  auto_connect :: js_value
  local_streams :: "stream_promise obj"
  local_channels :: "js_value obj"
  private_streams :: "stream_promise obj"
  private_channels :: "js_value obj"
  streams_desc :: "string obj"
  channels_desc :: "js_value obj"
  allocated :: nat
  connect_p :: "(nat \<times> chain) option"
  effects :: "effect list"

datatype js_error = TypeError

text \<open>
  Whether \<^verbatim>\<open>stream.then(...)\<close> can be called on a stored declaration. A promise
  has a \<^verbatim>\<open>then\<close>. An object handed in has the \<^verbatim>\<open>then\<close> it was given:
  \<^verbatim>\<open>addStream\<close> stores every object with a property of that name, whatever its
  value, and calling a value that is not a function throws.
\<close>

fun thenable :: "stream_promise \<Rightarrow> bool" where
  "thenable (Resolved s) = True"
| "thenable (Created config) = True"
| "thenable (Given (JPromise q)) = True"
| "thenable (Given (JObj props)) =
     (case map_of props ''then'' of Some (JFunction f) \<Rightarrow> True | _ \<Rightarrow> False)"
| "thenable (Given v) = False"

text \<open>
  \<^verbatim>\<open>connect()\<close>, the part that runs at the call. The merged stream declarations
  are read here, and \<^verbatim>\<open>stream.then(...)\<close> is called on each of them before
  \<^verbatim>\<open>this.connect_p\<close> is assigned: when a \<^verbatim>\<open>then\<close> is not callable the call
  throws a \<^verbatim>\<open>TypeError\<close> (\<open>Inl\<close>), and the peer is as it was, with
  \<^verbatim>\<open>connect_p\<close> still \<^verbatim>\<open>undefined\<close>. That can happen for a private
  declaration. The streams of the shared local peer are promises: the class that builds
  them is not among the sources, and this class reads them as
  \<^verbatim>\<open>Promise<Stream>\<close>. Otherwise the result is the promise returned, which is
  \<^verbatim>\<open>this.connect_p\<close>, and the peer after the call.
\<close>

definition RemotePeer_connect :: "remote_peer \<Rightarrow> js_error + (nat \<times> remote_peer)" where
  "RemotePeer_connect p =
     (case connect_p p of
        None \<Rightarrow>
          (let object = object_assign (object_assign [] (local_streams p)) (private_streams p);
               stream_promises = object_entries object;
               q = allocated p
           in if list_all (\<lambda>(name, stream). thenable stream) (private_streams p)
              then Inr (q, p\<lparr>allocated := Suc q,
                              connect_p := Some (q, Awaiting stream_promises
                                                     (replicate (length stream_promises) None))\<rparr>)
              else Inl TypeError)
      | Some (q, c) \<Rightarrow> Inr (q, p))"

text \<open>The first loop of the callback: \<^verbatim>\<open>for (const [name, stream] of streams)\<close>.\<close>

definition add_all_streams :: "(string \<times> stream) list \<Rightarrow> remote_peer \<Rightarrow> remote_peer" where
  "add_all_streams streams p =
     fold (\<lambda>(name, stream) p.
             p\<lparr>effects := effects p @ [PcAddStream stream],
               streams_desc := AList.update name (stream_id stream) (streams_desc p)\<rparr>)
          streams p"

text \<open>
  The second loop, over
  \<^verbatim>\<open>Object.entries({...this.local.channels, ...this.private_channels})\<close>, which is
  evaluated once, when the loop starts.
\<close>

definition create_data_channels :: "remote_peer \<Rightarrow> remote_peer" where
  "create_data_channels p =
     fold (\<lambda>(name, options) p.
             p\<lparr>effects := effects p @ [PcAddDataChannel name options],
               channels_desc := AList.update name options (channels_desc p)\<rparr>)
          (object_entries (object_assign (object_assign [] (local_channels p)) (private_channels p)))
          p"

text \<open>
  The callback of \<^verbatim>\<open>Promise.all(stream_promises).then\<close>, given the resolved
  \<^verbatim>\<open>[name, stream]\<close> pairs. It returns the promise of
  \<^verbatim>\<open>peer_connection.connect()\<close>, so \<^verbatim>\<open>connect_p\<close> follows that promise
  from here on.
\<close>

definition connect_then :: "(string \<times> stream) list \<Rightarrow> remote_peer \<Rightarrow> remote_peer" where
  "connect_then streams p =
     (let p1 = add_all_streams streams p;
          p2 = create_data_channels p1;
          p3 = p2\<lparr>effects := effects p2 @ [SetLocal (channels_desc p2)]\<rparr>
      in p3\<lparr>effects := effects p3 @ [PcConnect],
            connect_p := map_option (\<lambda>(q, c). (q, Transport)) (connect_p p3)\<rparr>)"

text \<open>The fields as the constructor sets them, before its last statement.\<close>

definition RemotePeer_init ::
  "stream_promise obj \<Rightarrow> js_value obj \<Rightarrow> js_value \<Rightarrow> remote_peer" where
  "RemotePeer_init streams channels ac =
     \<lparr>auto_connect = ac, local_streams = streams, local_channels = channels,
      private_streams = [], private_channels = [], streams_desc = [], channels_desc = [],
      allocated = 0, connect_p = None, effects = []\<rparr>"

text \<open>
  The constructor: the fields, then
  \<^verbatim>\<open>if (this.options.auto_connect == null || this.options.auto_connect) this.connect()\<close>.
  The peer has no private declaration yet, so this call of \<^verbatim>\<open>connect()\<close> returns.
\<close>

definition RemotePeer_constructor ::
  "stream_promise obj \<Rightarrow> js_value obj \<Rightarrow> js_value \<Rightarrow> remote_peer" where
  "RemotePeer_constructor streams channels ac =
     (let p = RemotePeer_init streams channels ac
      in if is_nullish (auto_connect p) \<or> truthy (auto_connect p)
         then (case RemotePeer_connect p of Inr (q, p') \<Rightarrow> p' | Inl e \<Rightarrow> p)
         else p)"

text \<open>\<^verbatim>\<open>close()\<close>.\<close>

definition RemotePeer_close :: "remote_peer \<Rightarrow> remote_peer" where
  "RemotePeer_close p = p\<lparr>effects := effects p @ [PcClose]\<rparr>"

text \<open>
  Modelled from the spec: the default names \<^verbatim>\<open>Peer.DEFAULT_STREAM\<close> and
  \<^verbatim>\<open>Peer.DEFAULT_CHANNEL\<close> ("default name used when omitted"); the file that
  declares them is not among the sources, the values are the ones the documentation
  comments of \<^verbatim>\<open>addStream\<close> and \<^verbatim>\<open>addDataChannel\<close> give.
\<close>

definition DEFAULT_STREAM :: string where
  "DEFAULT_STREAM = ''stream''"

definition DEFAULT_CHANNEL :: string where
  "DEFAULT_CHANNEL = ''data''"

definition add_streams_message :: string where
  "add_streams_message =
     ''Unable to add streams directly to remote peers without 'auto_connect' option set to 'false''
     @ [CHR 0x27]"

definition add_channels_message :: string where
  "add_channels_message =
     ''Unable to add channels directly to remote peers without 'auto_connect' option set to 'false''
     @ [CHR 0x27]"

text \<open>
  \<^verbatim>\<open>'then' in obj\<close>: a \<^verbatim>\<open>TypeError\<close> (here \<open>None\<close>) when \<open>obj\<close> is not an
  object. A \<^verbatim>\<open>Stream\<close> has no \<^verbatim>\<open>then\<close>: the code tests
  \<^verbatim>\<open>instanceof Stream\<close> only after this test has failed. Nor has a function.
\<close>

fun has_then :: "js_value \<Rightarrow> bool option" where
  "has_then (JObj props) = Some (''then'' \<in> fst ` set props)"
| "has_then (JPromise q) = Some True"
| "has_then (JStream s) = Some False"
| "has_then (JFunction f) = Some False"
| "has_then v = None"

text \<open>The helper \<^verbatim>\<open>saveStream\<close> of \<^verbatim>\<open>addStream\<close>.\<close>

definition saveStream ::
  "string \<Rightarrow> stream_promise \<Rightarrow> remote_peer \<Rightarrow> stream_promise \<times> remote_peer" where
  "saveStream name stream_p p =
     (stream_p, p\<lparr>private_streams := AList.update name stream_p (private_streams p)\<rparr>)"

text \<open>
  \<^verbatim>\<open>addStream(name, obj)\<close>. The result is \<open>Inl TypeError\<close> when the call throws,
  else the promise returned and the peer after the call.
\<close>

definition addStream ::
  "js_value \<Rightarrow> js_value \<Rightarrow> remote_peer \<Rightarrow> js_error + (stream_promise returned \<times> remote_peer)" where
  "addStream name obj p =
     (if \<not> is_false (auto_connect p)
      then Inr (Rejected_promise (JStr add_streams_message), p)
      else
        (let (name', obj') =
               (case name of JStr n \<Rightarrow> (n, obj) | _ \<Rightarrow> (DEFAULT_STREAM, name))
         in case has_then obj' of
              None \<Rightarrow> Inl TypeError
            | Some True \<Rightarrow>
                (case saveStream name' (Given obj') p of (sp, p') \<Rightarrow> Inr (Promise_of sp, p'))
            | Some False \<Rightarrow>
                (case obj' of
                   JStream s \<Rightarrow>
                     (case saveStream name' (Resolved s) p of (sp, p') \<Rightarrow> Inr (Promise_of sp, p'))
                 | _ \<Rightarrow>
                     (case saveStream name' (Created obj') p of (sp, p') \<Rightarrow> Inr (Promise_of sp, p')))))"

text \<open>
  What \<^verbatim>\<open>channel(name)\<close> returns: the promise
  \<^verbatim>\<open>channel_collection.get(name)\<close> of the channel collection.
\<close>

datatype channel_promise = Collection_get string

text \<open>\<^verbatim>\<open>addDataChannel(name, desc)\<close>.\<close>

definition addDataChannel ::
  "js_value \<Rightarrow> js_value \<Rightarrow> remote_peer \<Rightarrow> channel_promise returned \<times> remote_peer" where
  "addDataChannel name desc p =
     (if \<not> is_false (auto_connect p)
      then (Rejected_promise (JStr add_channels_message), p)
      else
        (let (name', desc1) =
               (case name of JStr n \<Rightarrow> (n, desc) | _ \<Rightarrow> (DEFAULT_CHANNEL, name));
             desc2 = (if is_nullish desc1 then JObj [(''ordered'', JBool True)] else desc1)
         in (Promise_of (Collection_get name'),
             p\<lparr>private_channels := AList.update name' desc2 (private_channels p)\<rparr>)))"

subsection \<open>The events of a peer session\<close>

text \<open>
  What can happen to a \<^verbatim>\<open>RemotePeer\<close> after its construction:
  \<^item> a call of one of its methods;
  \<^item> \<open>LocalChanged\<close>: the shared local peer gets other streams or channels;
  \<^item> \<open>StreamSettled i out\<close>: the reaction of the \<open>i\<close>-th promise
    \<^verbatim>\<open>Promise.all\<close> waits for runs, with the settlement \<open>out\<close> of that promise;
  \<^item> \<open>AllStreamsThen\<close>: the reaction registered by
    \<^verbatim>\<open>Promise.all(stream_promises).then\<close> runs;
  \<^item> \<open>TransportSettled out\<close>: the promise of \<^verbatim>\<open>peer_connection.connect()\<close>
    settles.
  An event that cannot happen in the state it meets (a second settlement of a promise,
  the callback before every stream is there) leaves the state as it is, and so does a
  call that throws.
\<close>

datatype peer_event =
    CallConnect
  | CallAddStream js_value js_value
  | CallAddDataChannel js_value js_value
  | CallClose
  | LocalChanged "stream_promise obj" "js_value obj"
  | StreamSettled nat "stream outcome"
  | AllStreamsThen
  | TransportSettled "js_value outcome"

text \<open>
  The settlement that reaches \<^verbatim>\<open>Promise.all\<close> for one awaited promise:
  \<^verbatim>\<open>Promise.resolve(stream)\<close> is fulfilled with its stream.
\<close>

fun settlement :: "stream_promise \<Rightarrow> stream outcome \<Rightarrow> stream outcome" where
  "settlement (Resolved s) out = Fulfilled s"
| "settlement sp out = out"

text \<open>
  One awaited promise settles. \<^verbatim>\<open>Promise.all\<close> keeps a fulfilment at its position
  and rejects on the first rejection, which rejects \<^verbatim>\<open>connect_p\<close> with the same
  reason; the callback is then never run.
\<close>

definition stream_settled :: "nat \<Rightarrow> stream outcome \<Rightarrow> remote_peer \<Rightarrow> remote_peer" where
  "stream_settled i out p =
     (case connect_p p of
        Some (q, Awaiting entries results) \<Rightarrow>
          (if i < length entries \<and> i < length results \<and> results ! i = None
           then (case settlement (snd (entries ! i)) out of
                   Fulfilled s \<Rightarrow>
                     p\<lparr>connect_p := Some (q, Awaiting entries (results[i := Some s]))\<rparr>
                 | Rejected r \<Rightarrow> p\<lparr>connect_p := Some (q, Done (Rejected r))\<rparr>)
           else p)
      | _ \<Rightarrow> p)"

text \<open>
  The reaction of \<^verbatim>\<open>Promise.all(...).then\<close>: once every awaited promise is
  fulfilled, the callback runs on the \<^verbatim>\<open>[name, stream]\<close> pairs, in the order of
  \<^verbatim>\<open>stream_promises\<close>.
\<close>

definition all_streams_then :: "remote_peer \<Rightarrow> remote_peer" where
  "all_streams_then p =
     (case connect_p p of
        Some (q, Awaiting entries results) \<Rightarrow>
          (case those results of
             Some ss \<Rightarrow> connect_then (zip (map fst entries) ss) p
           | None \<Rightarrow> p)
      | _ \<Rightarrow> p)"

text \<open>The promise of \<^verbatim>\<open>peer_connection.connect()\<close> settles, and \<^verbatim>\<open>connect_p\<close> with it.\<close>

definition transport_settled :: "js_value outcome \<Rightarrow> remote_peer \<Rightarrow> remote_peer" where
  "transport_settled out p =
     (case connect_p p of
        Some (q, Transport) \<Rightarrow> p\<lparr>connect_p := Some (q, Done out)\<rparr>
      | _ \<Rightarrow> p)"

fun peer_step :: "remote_peer \<Rightarrow> peer_event \<Rightarrow> remote_peer" where
  "peer_step p CallConnect =
     (case RemotePeer_connect p of Inl e \<Rightarrow> p | Inr (q, p') \<Rightarrow> p')"
| "peer_step p (CallAddStream name obj) =
     (case addStream name obj p of Inl e \<Rightarrow> p | Inr (r, p') \<Rightarrow> p')"
| "peer_step p (CallAddDataChannel name desc) = snd (addDataChannel name desc p)"
| "peer_step p CallClose = RemotePeer_close p"
| "peer_step p (LocalChanged streams channels) =
     p\<lparr>local_streams := streams, local_channels := channels\<rparr>"
| "peer_step p (StreamSettled i out) = stream_settled i out p"
| "peer_step p AllStreamsThen = all_streams_then p"
| "peer_step p (TransportSettled out) = transport_settled out p"

definition peer_run :: "remote_peer \<Rightarrow> peer_event list \<Rightarrow> remote_peer" where
  "peer_run p evs = foldl peer_step p evs"


section \<open>RemotePeer (remote_peer.coffee)\<close>

text \<open>
  The CoffeeScript class has no private streams or channels and no
  \<^verbatim>\<open>addStream\<close> or \<^verbatim>\<open>addDataChannel\<close>. Its \<^verbatim>\<open>connect_p\<close> is the same
  promise chain, so the record reuses \<^typ>\<open>chain\<close> and \<^typ>\<open>effect\<close>.
\<close>

record coffee_peer =
  c_auto_connect :: js_value
  c_local_streams :: "stream_promise obj"
  c_local_channels :: "js_value obj"
  c_streams_desc :: "string obj"
  c_channels_desc :: "js_value obj"
  c_allocated :: nat
  c_connect_p :: "(nat \<times> chain) option"
  c_effects :: "effect list"

text \<open>
  \<^verbatim>\<open>connect\<close>, the part that runs at the call: one promise for every entry of
  \<^verbatim>\<open>@local.streams\<close>.
\<close>

definition coffee_connect :: "coffee_peer \<Rightarrow> nat \<times> coffee_peer" where
  "coffee_connect p =
     (case c_connect_p p of
        None \<Rightarrow>
          (let stream_promises = object_entries (c_local_streams p);
               q = c_allocated p
           in (q, p\<lparr>c_allocated := Suc q,
                     c_connect_p := Some (q, Awaiting stream_promises
                                              (replicate (length stream_promises) None))\<rparr>))
      | Some (q, c) \<Rightarrow> (q, p))"

text \<open>
  The names the resolved streams come with. The function
  \<^verbatim>\<open>(stream) -> return [name, stream]\<close> reads the loop variable \<^verbatim>\<open>name\<close> of
  \<^verbatim>\<open>connect\<close> when it runs; CoffeeScript declares that variable once for the whole
  method, and a promise runs its reactions after the loop has ended, so every pair
  carries the name the loop ended on, the last key of \<^verbatim>\<open>@local.streams\<close>.
\<close>

definition coffee_stream_names :: "(string \<times> stream_promise) list \<Rightarrow> string list" where
  "coffee_stream_names entries = map (\<lambda>e. fst (last entries)) entries"

text \<open>The callback of \<^verbatim>\<open>Promise.all(stream_promises).then\<close>.\<close>

definition coffee_connect_then :: "(string \<times> stream) list \<Rightarrow> coffee_peer \<Rightarrow> coffee_peer" where
  "coffee_connect_then streams p =
     (let p1 = fold (\<lambda>(name, stream) p.
                       p\<lparr>c_effects := c_effects p @ [PcAddStream stream],
                         c_streams_desc :=
                           AList.update name (stream_id stream) (c_streams_desc p)\<rparr>)
                    streams p;
          p2 = fold (\<lambda>(name, options) p.
                       p\<lparr>c_effects := c_effects p @ [PcAddDataChannel name options],
                         c_channels_desc := AList.update name options (c_channels_desc p)\<rparr>)
                    (object_entries (c_local_channels p1)) p1;
          p3 = p2\<lparr>c_effects := c_effects p2 @ [SetLocal (c_channels_desc p2)]\<rparr>
      in p3\<lparr>c_effects := c_effects p3 @ [PcConnect],
            c_connect_p := map_option (\<lambda>(q, c). (q, Transport)) (c_connect_p p3)\<rparr>)"

definition coffee_stream_settled :: "nat \<Rightarrow> stream outcome \<Rightarrow> coffee_peer \<Rightarrow> coffee_peer" where
  "coffee_stream_settled i out p =
     (case c_connect_p p of
        Some (q, Awaiting entries results) \<Rightarrow>
          (if i < length entries \<and> i < length results \<and> results ! i = None
           then (case settlement (snd (entries ! i)) out of
                   Fulfilled s \<Rightarrow>
                     p\<lparr>c_connect_p := Some (q, Awaiting entries (results[i := Some s]))\<rparr>
                 | Rejected r \<Rightarrow> p\<lparr>c_connect_p := Some (q, Done (Rejected r))\<rparr>)
           else p)
      | _ \<Rightarrow> p)"

definition coffee_all_streams_then :: "coffee_peer \<Rightarrow> coffee_peer" where
  "coffee_all_streams_then p =
     (case c_connect_p p of
        Some (q, Awaiting entries results) \<Rightarrow>
          (case those results of
             Some ss \<Rightarrow> coffee_connect_then (zip (coffee_stream_names entries) ss) p
           | None \<Rightarrow> p)
      | _ \<Rightarrow> p)"

definition coffee_init ::
  "stream_promise obj \<Rightarrow> js_value obj \<Rightarrow> js_value \<Rightarrow> coffee_peer" where
  "coffee_init streams channels ac =
     \<lparr>c_auto_connect = ac, c_local_streams = streams, c_local_channels = channels,
      c_streams_desc = [], c_channels_desc = [],
      c_allocated = 0, c_connect_p = None, c_effects = []\<rparr>"

text \<open>
  The constructor: the fields, then
  \<^verbatim>\<open>if not @options.auto_connect? or not @options.auto_connect\<close>
  \<^verbatim>\<open>then @connect()\<close>. The operator \<^verbatim>\<open>?\<close> tests for a value that is neither
  \<^verbatim>\<open>null\<close> nor \<^verbatim>\<open>undefined\<close>.
\<close>

definition coffee_constructor ::
  "stream_promise obj \<Rightarrow> js_value obj \<Rightarrow> js_value \<Rightarrow> coffee_peer" where
  "coffee_constructor streams channels ac =
     (let p = coffee_init streams channels ac
      in if is_nullish (c_auto_connect p) \<or> \<not> truthy (c_auto_connect p)
         then snd (coffee_connect p) else p)"

text \<open>The promise of \<^verbatim>\<open>@peer_connection.connect()\<close> settles.\<close>

definition coffee_transport_settled :: "js_value outcome \<Rightarrow> coffee_peer \<Rightarrow> coffee_peer" where
  "coffee_transport_settled out p =
     (case c_connect_p p of
        Some (q, Transport) \<Rightarrow> p\<lparr>c_connect_p := Some (q, Done out)\<rparr>
      | _ \<Rightarrow> p)"

text \<open>\<^verbatim>\<open>close\<close>.\<close>

definition coffee_close :: "coffee_peer \<Rightarrow> coffee_peer" where
  "coffee_close p = p\<lparr>c_effects := c_effects p @ [PcClose]\<rparr>"

text \<open>
  The events of a peer session, for the CoffeeScript class. It has no
  \<^verbatim>\<open>addStream\<close> and no \<^verbatim>\<open>addDataChannel\<close>: a call of either throws and
  leaves the peer as it is.
\<close>

fun coffee_step :: "coffee_peer \<Rightarrow> peer_event \<Rightarrow> coffee_peer" where
  "coffee_step p CallConnect = snd (coffee_connect p)"
| "coffee_step p (CallAddStream name obj) = p"
| "coffee_step p (CallAddDataChannel name desc) = p"
| "coffee_step p CallClose = coffee_close p"
| "coffee_step p (LocalChanged streams channels) =
     p\<lparr>c_local_streams := streams, c_local_channels := channels\<rparr>"
| "coffee_step p (StreamSettled i out) = coffee_stream_settled i out p"
| "coffee_step p AllStreamsThen = coffee_all_streams_then p"
| "coffee_step p (TransportSettled out) = coffee_transport_settled out p"

definition coffee_run :: "coffee_peer \<Rightarrow> peer_event list \<Rightarrow> coffee_peer" where
  "coffee_run p evs = foldl coffee_step p evs"

section \<open>Room (room.ts)\<close>

datatype room_state = Idle | Connecting | Connected | Closed | Failed

text \<open>A promise of a collaborator: not settled yet, or settled for good.\<close>

datatype 'a promise_state = Pending | Settled "'a outcome"

text \<open>
  What the room emits to its listeners, and the calls it makes on its signaling.
  \<^verbatim>\<open>'peers_changed'\<close> carries the peer map: here its keys, as the object
  enumerates them.
\<close>

datatype room_emit =
    EmitClosed
  | EmitStateChanged room_state
  | EmitPeerJoined string
  | EmitPeerLeft string
  | EmitPeersChanged "string list"

datatype signaling_call = SetStatus | SignalingConnect | SignalingClose

text \<open>
  The fields of a \<^verbatim>\<open>Room\<close>. \<open>join_p\<close> is \<open>None\<close> for \<^verbatim>\<open>undefined\<close>, else
  the state of the promise \<^verbatim>\<open>signaling.connect()\<close> returned. Every call of
  \<^verbatim>\<open>connect()\<close> returns a promise of its own,
  \<^verbatim>\<open>join_p.then(...).catch(...)\<close>; \<open>returned\<close> lists them, oldest first, with
  \<open>None\<close> while the reactions of that promise have not run and its settlement after.
  \<open>room_auto_connect\<close>, \<open>room_streams\<close> and \<open>room_channels\<close> are what the room hands
  to the peers it creates: \<^verbatim>\<open>options.auto_connect\<close> and the streams and channels
  of \<^verbatim>\<open>this.local\<close>.
\<close>

record room =
  room_auto_connect :: js_value
  room_streams :: "stream_promise obj"
  room_channels :: "js_value obj"
  peers :: "remote_peer obj"
  join_p :: "js_value promise_state option"
  state :: room_state
  returned :: "js_value outcome option list"
  signaling_calls :: "signaling_call list"
  emitted :: "room_emit list"

text \<open>The constructor: the status goes to the signaling, no peers, state \<^verbatim>\<open>"idle"\<close>.\<close>

definition Room_constructor ::
  "js_value \<Rightarrow> stream_promise obj \<Rightarrow> js_value obj \<Rightarrow> room" where
  "Room_constructor ac streams channels =
     \<lparr>room_auto_connect = ac, room_streams = streams, room_channels = channels,
      peers = [], join_p = None, state = Idle, returned = [],
      signaling_calls = [SetStatus], emitted = []\<rparr>"

definition setState :: "room_state \<Rightarrow> room \<Rightarrow> room" where
  "setState s r = r\<lparr>state := s, emitted := emitted r @ [EmitStateChanged s]\<rparr>"

text \<open>
  \<^verbatim>\<open>connect()\<close>, the part that runs at the call; the result is the position in
  \<open>returned\<close> of the promise the call returns.
\<close>

definition Room_connect :: "room \<Rightarrow> nat \<times> room" where
  "Room_connect r =
     (let r1 = (if join_p r = None
                then (let r' = setState Connecting r
                      in r'\<lparr>signaling_calls := signaling_calls r' @ [SignalingConnect],
                            join_p := Some Pending\<rparr>)
                else r)
      in (length (returned r1), r1\<lparr>returned := returned r1 @ [None]\<rparr>))"

text \<open>The promise of \<^verbatim>\<open>signaling.connect()\<close> settles; a promise settles once.\<close>

definition join_settled :: "js_value outcome \<Rightarrow> room \<Rightarrow> room" where
  "join_settled out r =
     (if join_p r = Some Pending then r\<lparr>join_p := Some (Settled out)\<rparr> else r)"

text \<open>
  The reactions \<^verbatim>\<open>.then(() => setState("connected"))\<close> and
  \<^verbatim>\<open>.catch((err) => { setState("failed"); throw err })\<close> of the oldest promise of
  \<open>returned\<close> that is still waiting: they run once \<^verbatim>\<open>join_p\<close> is settled.
\<close>

definition join_reaction :: "room \<Rightarrow> room" where
  "join_reaction r =
     (case join_p r of
        Some (Settled out) \<Rightarrow>
          (let i = length (takeWhile (\<lambda>x. x \<noteq> None) (returned r))
           in if i < length (returned r)
              then (case out of
                      Fulfilled v \<Rightarrow>
                        (let r' = setState Connected r
                         in r'\<lparr>returned := (returned r')[i := Some (Fulfilled JUndefined)]\<rparr>)
                    | Rejected err \<Rightarrow>
                        (let r' = setState Failed r
                         in r'\<lparr>returned := (returned r')[i := Some (Rejected err)]\<rparr>))
              else r)
      | _ \<Rightarrow> r)"

text \<open>The handler of the signaling's \<^verbatim>\<open>'closed'\<close>.\<close>

definition on_signaling_closed :: "room \<Rightarrow> room" where
  "on_signaling_closed r =
     (let r1 = r\<lparr>peers := []\<rparr>;
          r2 = r1\<lparr>emitted := emitted r1 @ [EmitClosed]\<rparr>
      in if state r2 = Connected then setState Closed r2 else r2)"

text \<open>\<^verbatim>\<open>createPeer\<close>.\<close>

definition createPeer :: "room \<Rightarrow> remote_peer" where
  "createPeer r = RemotePeer_constructor (room_streams r) (room_channels r) (room_auto_connect r)"

text \<open>The second handler of the signaling's \<^verbatim>\<open>'peer_joined'\<close>; the first does nothing.\<close>

definition on_peer_joined :: "string \<Rightarrow> room \<Rightarrow> room" where
  "on_peer_joined ident r =
     (let peer = createPeer r;
          r1 = r\<lparr>peers := AList.update ident peer (peers r)\<rparr>;
          r2 = r1\<lparr>emitted := emitted r1 @ [EmitPeerJoined ident]\<rparr>
      in r2\<lparr>emitted := emitted r2 @ [EmitPeersChanged (map fst (object_entries (peers r2)))]\<rparr>)"

text \<open>The handler of a peer's \<^verbatim>\<open>'left'\<close>.\<close>

definition on_peer_left :: "string \<Rightarrow> room \<Rightarrow> room" where
  "on_peer_left ident r =
     (let r1 = r\<lparr>peers := AList.delete ident (peers r)\<rparr>;
          r2 = r1\<lparr>emitted := emitted r1 @ [EmitPeerLeft ident]\<rparr>
      in r2\<lparr>emitted := emitted r2 @ [EmitPeersChanged (map fst (object_entries (peers r2)))]\<rparr>)"

text \<open>\<^verbatim>\<open>leave()\<close> and \<^verbatim>\<open>destroy()\<close>.\<close>

definition Room_leave :: "room \<Rightarrow> room" where
  "Room_leave r = r\<lparr>signaling_calls := signaling_calls r @ [SignalingClose]\<rparr>"

datatype room_event =
    CallRoomConnect
  | CallLeave
  | JoinSettled "js_value outcome"
  | JoinReaction
  | SignalingClosed
  | SignalingPeerJoined string
  | PeerLeft string

fun room_step :: "room \<Rightarrow> room_event \<Rightarrow> room" where
  "room_step r CallRoomConnect = snd (Room_connect r)"
| "room_step r CallLeave = Room_leave r"
| "room_step r (JoinSettled out) = join_settled out r"
| "room_step r JoinReaction = join_reaction r"
| "room_step r SignalingClosed = on_signaling_closed r"
| "room_step r (SignalingPeerJoined ident) = on_peer_joined ident r"
| "room_step r (PeerLeft ident) = on_peer_left ident r"

definition room_run :: "room \<Rightarrow> room_event list \<Rightarrow> room" where
  "room_run r evs = foldl room_step r evs"

section \<open>Predicates of the statements and proofs\<close>






text \<open>
  The events both classes can meet: no call of \<^verbatim>\<open>addStream\<close> or
  \<^verbatim>\<open>addDataChannel\<close>, and the shared local peer holds objects (distinct keys).
\<close>

fun shared_event :: "peer_event \<Rightarrow> bool" where
  "shared_event (CallAddStream name obj) = False"
| "shared_event (CallAddDataChannel name desc) = False"
| "shared_event (LocalChanged streams channels) =
     (distinct (map fst streams) \<and> distinct (map fst channels))"
| "shared_event e = True"

text \<open>
  A CoffeeScript peer and a TypeScript peer in the same state: the same shared
  streams and channels, no private ones, the same promise chain, the same calls made
  and the same channel descriptor.
\<close>

definition same_session :: "coffee_peer \<Rightarrow> remote_peer \<Rightarrow> bool" where
  "same_session c p =
     (c_local_streams c = local_streams p \<and> c_local_channels c = local_channels p
      \<and> distinct (map fst (local_streams p)) \<and> distinct (map fst (local_channels p))
      \<and> private_streams p = [] \<and> private_channels p = []
      \<and> c_connect_p c = connect_p p \<and> c_allocated c = allocated p
      \<and> c_effects c = effects p \<and> c_channels_desc c = channels_desc p)"

text \<open>
  What holds of a room as long as \<^verbatim>\<open>connect()\<close> has not been called: it is idle
  and has returned no promise.
\<close>

definition never_joined :: "room \<Rightarrow> bool" where
  "never_joined r = (join_p r \<noteq> None \<or> (state r = Idle \<and> returned r = []))"

text \<open>
  The states a room can be in, given what has become of \<^verbatim>\<open>join_p\<close>; and the
  changes of state the code makes in reachable rooms.
\<close>

fun states_for :: "js_value promise_state option \<Rightarrow> room_state list" where
  "states_for None = [Idle]"
| "states_for (Some Pending) = [Connecting]"
| "states_for (Some (Settled (Fulfilled v))) = [Connecting, Connected, Closed]"
| "states_for (Some (Settled (Rejected err))) = [Connecting, Failed]"

definition room_inv :: "room \<Rightarrow> bool" where
  "room_inv r = (state r \<in> set (states_for (join_p r)))"

definition room_moves :: "(room_state \<times> room_state) list" where
  "room_moves = [(Idle, Connecting), (Connecting, Connected), (Connecting, Failed),
                 (Connected, Closed), (Closed, Connected)]"

section \<open>The connect protocol of a peer\<close>

lemma peer_run_snoc: "peer_run p (evs @ [e]) = peer_step (peer_run p evs) e"
  by (simp add: peer_run_def)

lemma peer_run_Nil: "peer_run p [] = p"
  by (simp add: peer_run_def)

lemma peer_run_Cons: "peer_run p (e # evs) = peer_run (peer_step p e) evs"
  by (simp add: peer_run_def)

lemma peer_run_append: "peer_run p (xs @ ys) = peer_run (peer_run p xs) ys"
  by (simp add: peer_run_def)

lemma those_map_Some: "those (map Some xs) = Some xs"
  by (induction xs) auto

lemma add_all_streams_fields:
  "effects (add_all_streams streams p) = effects p @ map (\<lambda>(n, s). PcAddStream s) streams
   \<and> streams_desc (add_all_streams streams p)
       = fold (\<lambda>(n, s). AList.update n (stream_id s)) streams (streams_desc p)
   \<and> channels_desc (add_all_streams streams p) = channels_desc p
   \<and> local_channels (add_all_streams streams p) = local_channels p
   \<and> private_channels (add_all_streams streams p) = private_channels p
   \<and> connect_p (add_all_streams streams p) = connect_p p
   \<and> allocated (add_all_streams streams p) = allocated p"
  unfolding add_all_streams_def
  by (induction streams arbitrary: p) (auto simp: case_prod_beta)

lemma channels_loop_fields:
  "effects (fold (\<lambda>(name, options) p.
             p\<lparr>effects := effects p @ [PcAddDataChannel name options],
               channels_desc := AList.update name options (channels_desc p)\<rparr>) chans p)
     = effects p @ map (\<lambda>(n, opts). PcAddDataChannel n opts) chans
   \<and> channels_desc (fold (\<lambda>(name, options) p.
             p\<lparr>effects := effects p @ [PcAddDataChannel name options],
               channels_desc := AList.update name options (channels_desc p)\<rparr>) chans p)
     = fold (\<lambda>(n, opts). AList.update n opts) chans (channels_desc p)
   \<and> streams_desc (fold (\<lambda>(name, options) p.
             p\<lparr>effects := effects p @ [PcAddDataChannel name options],
               channels_desc := AList.update name options (channels_desc p)\<rparr>) chans p)
     = streams_desc p
   \<and> connect_p (fold (\<lambda>(name, options) p.
             p\<lparr>effects := effects p @ [PcAddDataChannel name options],
               channels_desc := AList.update name options (channels_desc p)\<rparr>) chans p)
     = connect_p p
   \<and> allocated (fold (\<lambda>(name, options) p.
             p\<lparr>effects := effects p @ [PcAddDataChannel name options],
               channels_desc := AList.update name options (channels_desc p)\<rparr>) chans p)
     = allocated p"
  by (induction chans arbitrary: p) (auto simp: case_prod_beta)

lemma connect_then_fields:
  assumes "chans = object_entries (object_assign (object_assign [] (local_channels p)) (private_channels p))"
  shows "effects (connect_then streams p)
           = effects p @ map (\<lambda>(n, s). PcAddStream s) streams
             @ map (\<lambda>(n, opts). PcAddDataChannel n opts) chans
             @ [SetLocal (fold (\<lambda>(n, opts). AList.update n opts) chans (channels_desc p)), PcConnect]"
    and "streams_desc (connect_then streams p)
           = fold (\<lambda>(n, s). AList.update n (stream_id s)) streams (streams_desc p)"
    and "channels_desc (connect_then streams p)
           = fold (\<lambda>(n, opts). AList.update n opts) chans (channels_desc p)"
    and "connect_p (connect_then streams p) = map_option (\<lambda>(q, c). (q, Transport)) (connect_p p)"
    and "allocated (connect_then streams p) = allocated p"
  using assms
  by (simp_all add: connect_then_def Let_def create_data_channels_def channels_loop_fields
      add_all_streams_fields)

lemma deliver_all:
  assumes "connect_p p = Some (q, Awaiting entries (replicate (length entries) None))"
      and "length ss = length entries"
      and "\<forall>i<length entries. \<forall>s. snd (entries ! i) = Resolved s \<longrightarrow> ss ! i = s"
      and "set order \<subseteq> {..<length entries}"
  shows "peer_run p (map (\<lambda>i. StreamSettled i (Fulfilled (ss ! i))) order)
         = p\<lparr>connect_p := Some (q, Awaiting entries
               (map (\<lambda>i. if i \<in> set order then Some (ss ! i) else None) [0..<length entries]))\<rparr>"
  using assms(4)
proof (induction order rule: rev_induct)
  case Nil
  have "map (\<lambda>i. None) [0..<length entries] = replicate (length entries) (None :: stream option)"
    by (simp add: map_replicate_const)
  with assms(1) show ?case by (simp add: peer_run_Nil)
next
  case (snoc i order)
  then have i: "i < length entries" and sub: "set order \<subseteq> {..<length entries}" by auto
  let ?f = "\<lambda>order i. if i \<in> set order then Some (ss ! i) else None"
  have st: "settlement (snd (entries ! i)) (Fulfilled (ss ! i)) = Fulfilled (ss ! i)"
    using assms(3) i by (cases "snd (entries ! i)") auto
  have upd: "i \<notin> set order \<Longrightarrow> (map (?f order) [0..<length entries])[i := Some (ss ! i)]
        = map (?f (order @ [i])) [0..<length entries]"
    using i by (intro nth_equalityI) (auto simp: nth_list_update)
  have same: "i \<in> set order \<Longrightarrow> map (?f order) [0..<length entries]
        = map (?f (order @ [i])) [0..<length entries]"
    by auto
  show ?case
    using snoc.IH [OF sub] i st upd same
    by (cases "i \<in> set order") (simp_all add: peer_run_snoc stream_settled_def)
qed

lemma deliver_all_complete:
  assumes "connect_p p = Some (q, Awaiting entries (replicate (length entries) None))"
      and "length ss = length entries"
      and "\<forall>i<length entries. \<forall>s. snd (entries ! i) = Resolved s \<longrightarrow> ss ! i = s"
      and "set order = {..<length entries}"
  shows "peer_run p (map (\<lambda>i. StreamSettled i (Fulfilled (ss ! i))) order)
         = p\<lparr>connect_p := Some (q, Awaiting entries (map Some ss))\<rparr>"
proof -
  have "map (\<lambda>i. if i \<in> set order then Some (ss ! i) else None) [0..<length entries] = map Some ss"
    using assms(2,4) by (intro nth_equalityI) auto
  with deliver_all [OF assms(1-3)] assms(4) show ?thesis by simp
qed

lemma connect_run_fields:
  assumes "connect_p p = None"
      and "entries = object_entries (object_assign (object_assign [] (local_streams p)) (private_streams p))"
      and "length ss = length entries"
      and "\<forall>i<length entries. \<forall>s. snd (entries ! i) = Resolved s \<longrightarrow> ss ! i = s"
      and "set order = {..<length entries}"
      and "chans = object_entries (object_assign (object_assign [] (local_channels p)) (private_channels p))"
      and "p' = peer_run p (CallConnect # map (\<lambda>i. StreamSettled i (Fulfilled (ss ! i))) order @ [AllStreamsThen])"
      and "list_all (\<lambda>(name, stream). thenable stream) (private_streams p)"
  shows "effects p' = effects p @ map PcAddStream ss
                      @ map (\<lambda>(n, opts). PcAddDataChannel n opts) chans
                      @ [SetLocal (channels_desc p'), PcConnect]
       \<and> streams_desc p' = fold (\<lambda>(n, s). AList.update n (stream_id s))
                               (zip (map fst entries) ss) (streams_desc p)
       \<and> channels_desc p' = fold (\<lambda>(n, opts). AList.update n opts) chans (channels_desc p)
       \<and> (\<exists>p1. RemotePeer_connect p = Inr (allocated p, p1))
       \<and> connect_p p' = Some (allocated p, Transport)
       \<and> connect_p (peer_step p' (TransportSettled out)) = Some (allocated p, Done out)"
proof -
  let ?q = "allocated p"
  let ?p1 = "p\<lparr>allocated := Suc ?q,
      connect_p := Some (?q, Awaiting entries (replicate (length entries) None))\<rparr>"
  define p2 where "p2 = ?p1\<lparr>connect_p := Some (?q, Awaiting entries (map Some ss))\<rparr>"
  have q: "RemotePeer_connect p = Inr (?q, ?p1)"
    using assms(1,2,8) by (simp add: RemotePeer_connect_def Let_def)
  then have st: "peer_step p CallConnect = ?p1" by simp
  have c1: "connect_p ?p1 = Some (?q, Awaiting entries (replicate (length entries) None))"
    by simp
  have run: "peer_run p (CallConnect # map (\<lambda>i. StreamSettled i (Fulfilled (ss ! i))) order) = p2"
    using deliver_all_complete [OF c1 assms(3,4,5)] by (simp only: peer_run_Cons st p2_def)
  have c2: "connect_p p2 = Some (?q, Awaiting entries (map Some ss))"
    by (simp add: p2_def)
  have p': "p' = connect_then (zip (map fst entries) ss) p2"
  proof -
    have "p' = peer_step (peer_run p (CallConnect # map (\<lambda>i. StreamSettled i (Fulfilled (ss ! i))) order))
        AllStreamsThen"
      unfolding assms(7) by (simp only: peer_run_snoc flip: append_Cons)
    then show ?thesis
      unfolding run by (simp add: all_streams_then_def c2 those_map_Some)
  qed
  have ch: "chans = object_entries (object_assign (object_assign [] (local_channels p2)) (private_channels p2))"
    using assms(6) by (simp add: p2_def)
  have zs: "map (\<lambda>(n, s). PcAddStream s) (zip (map fst entries) ss) = map PcAddStream ss"
    using assms(3) by (intro nth_equalityI) auto
  note f = connect_then_fields [OF ch, of "zip (map fst entries) ss"]
  have e2: "effects p2 = effects p" "streams_desc p2 = streams_desc p"
    "channels_desc p2 = channels_desc p"
    by (simp_all add: p2_def)
  have ex: "\<exists>p1. RemotePeer_connect p = Inr (allocated p, p1)" using q by blast
  show ?thesis
    unfolding p' using ex
    by (simp add: f e2 c2 zs transport_settled_def)
qed

text \<open>
  C3. On the first call of \<^verbatim>\<open>connect()\<close>, when every declared stream can be
  awaited and every awaited promise is fulfilled (in any order) and the callback runs,
  the peer calls
  \<^verbatim>\<open>addStream\<close> for every resolved stream, in the order of the declarations,
  then \<^verbatim>\<open>addDataChannel\<close> for every declared channel, then
  \<^verbatim>\<open>setLocal\<close> with the channel descriptor, then \<^verbatim>\<open>connect\<close> of the
  peer connection, and nothing else. The stream descriptor gets the id of every
  stream under its name, the channel descriptor the options of every channel under
  its name, and the promise \<^verbatim>\<open>connect()\<close> returned settles as the promise of the
  peer connection's \<^verbatim>\<open>connect\<close> does.
\<close>

theorem connect_protocol:
  assumes "connect_p p = None"
      and "entries = object_entries (object_assign (object_assign [] (local_streams p)) (private_streams p))"
      and "length ss = length entries"
      and "\<forall>i<length entries. \<forall>s. snd (entries ! i) = Resolved s \<longrightarrow> ss ! i = s"
      and "set order = {..<length entries}"
      and "chans = object_entries (object_assign (object_assign [] (local_channels p)) (private_channels p))"
      and "p' = peer_run p (CallConnect # map (\<lambda>i. StreamSettled i (Fulfilled (ss ! i))) order @ [AllStreamsThen])"
      and "list_all (\<lambda>(name, stream). thenable stream) (private_streams p)"
  shows "effects p' = effects p @ map PcAddStream ss
                      @ map (\<lambda>(n, opts). PcAddDataChannel n opts) chans
                      @ [SetLocal (channels_desc p'), PcConnect]
       \<and> streams_desc p' = fold (\<lambda>(n, s). AList.update n (stream_id s))
                               (zip (map fst entries) ss) (streams_desc p)
       \<and> channels_desc p' = fold (\<lambda>(n, opts). AList.update n opts) chans (channels_desc p)
       \<and> (\<exists>p1. RemotePeer_connect p = Inr (allocated p, p1))
       \<and> connect_p p' = Some (allocated p, Transport)
       \<and> connect_p (peer_step p' (TransportSettled out)) = Some (allocated p, Done out)"
  using assms by (rule connect_run_fields)

theorem connect_protocol_witness:
  "connect_p (RemotePeer_init [(''cam'', Resolved (Stream ''s1'')), (''mic'', Given (JPromise 7))]
       [(''data'', JObj [(''ordered'', JBool True)])] (JBool False)) = None
   \<and> effects (peer_run (RemotePeer_init
         [(''cam'', Resolved (Stream ''s1'')), (''mic'', Given (JPromise 7))]
         [(''data'', JObj [(''ordered'', JBool True)])] (JBool False))
       (CallConnect # map (\<lambda>i. StreamSettled i (Fulfilled ([Stream ''s1'', Stream ''s2''] ! i))) [1, 0]
        @ [AllStreamsThen]))
     = [PcAddStream (Stream ''s1''), PcAddStream (Stream ''s2''),
        PcAddDataChannel ''data'' (JObj [(''ordered'', JBool True)]),
        SetLocal [(''data'', JObj [(''ordered'', JBool True)])], PcConnect]
   \<and> connect_p (peer_step (peer_run (RemotePeer_init
         [(''cam'', Resolved (Stream ''s1'')), (''mic'', Given (JPromise 7))]
         [(''data'', JObj [(''ordered'', JBool True)])] (JBool False))
       (CallConnect # map (\<lambda>i. StreamSettled i (Fulfilled ([Stream ''s1'', Stream ''s2''] ! i))) [1, 0]
        @ [AllStreamsThen])) (TransportSettled (Rejected (JStr ''ice failed''))))
     = Some (0, Done (Rejected (JStr ''ice failed'')))"
proof -
  let ?p = "RemotePeer_init [(''cam'', Resolved (Stream ''s1'')), (''mic'', Given (JPromise 7))]
       [(''data'', JObj [(''ordered'', JBool True)])] (JBool False)"
  let ?ss = "[Stream ''s1'', Stream ''s2'']"
  have h1: "connect_p ?p = None" by (simp add: RemotePeer_init_def)
  have ent: "object_entries (object_assign (object_assign [] (local_streams ?p)) (private_streams ?p))
      = [(''cam'', Resolved (Stream ''s1'')), (''mic'', Given (JPromise 7))]"
    by code_simp
  have chn: "object_entries (object_assign (object_assign [] (local_channels ?p)) (private_channels ?p))
      = [(''data'', JObj [(''ordered'', JBool True)])]"
    by code_simp
  have h3: "length ?ss
      = length (object_entries (object_assign (object_assign [] (local_streams ?p)) (private_streams ?p)))"
    unfolding ent by simp
  have h4: "\<forall>i<length (object_entries (object_assign (object_assign [] (local_streams ?p)) (private_streams ?p))).
      \<forall>s. snd (object_entries (object_assign (object_assign [] (local_streams ?p)) (private_streams ?p)) ! i)
            = Resolved s \<longrightarrow> ?ss ! i = s"
    unfolding ent by (auto simp: less_Suc_eq)
  have h5: "set [1, 0::nat]
      = {..<length (object_entries (object_assign (object_assign [] (local_streams ?p)) (private_streams ?p)))}"
    unfolding ent by auto
  have h8: "list_all (\<lambda>(name, stream). thenable stream) (private_streams ?p)"
    by (simp add: RemotePeer_init_def)
  have q: "allocated ?p = 0" "effects ?p = []" "channels_desc ?p = []"
    by (simp_all add: RemotePeer_init_def)
  note t = connect_protocol [OF h1 refl h3 h4 h5 refl refl h8, of "Rejected (JStr ''ice failed'')"]
  show ?thesis
    using t h1 unfolding chn q by simp
qed

section \<open>Shared and private declarations\<close>

lemma set_object_entries: "set (object_entries obj) = set obj"
  by (auto simp: object_entries_def)

lemma distinct_object_entries:
  assumes "distinct (map fst obj)"
  shows "distinct (map fst (object_entries obj))"
proof -
  let ?A = "filter (\<lambda>(k, v). is_array_index k) obj"
  let ?B = "filter (\<lambda>(k, v). \<not> is_array_index k) obj"
  let ?S = "sort_key (\<lambda>(k, v). digits_value k) ?A"
  have "distinct (map fst ?A)" using assms by (rule distinct_map_filter)
  then have "distinct (map fst ?S)" by (simp add: distinct_map)
  moreover have "distinct (map fst ?B)" using assms by (rule distinct_map_filter)
  moreover have "fst ` set ?S \<inter> fst ` set ?B = {}" by auto
  ultimately show ?thesis by (simp add: object_entries_def)
qed

lemma map_of_object_entries:
  "distinct (map fst obj) \<Longrightarrow> map_of (object_entries obj) = map_of obj"
  by (simp add: map_of_inject_set distinct_object_entries set_object_entries)

lemma distinct_fold_update:
  "distinct (map fst t) \<Longrightarrow> distinct (map fst (fold (\<lambda>(k, v). AList.update k (f v)) xs t))"
  by (induction xs arbitrary: t) (auto simp: distinct_update)

lemma map_of_fold_update_notin:
  "k \<notin> fst ` set xs \<Longrightarrow> map_of (fold (\<lambda>(k, v). AList.update k (f v)) xs t) k = map_of t k"
  by (induction xs arbitrary: t) (auto simp: update_conv')

lemma map_of_fold_update_in:
  "distinct (map fst xs) \<Longrightarrow> (k, v) \<in> set xs \<Longrightarrow>
   map_of (fold (\<lambda>(k, v). AList.update k (f v)) xs t) k = Some (f v)"
proof (induction xs arbitrary: t)
  case Nil
  then show ?case by simp
next
  case (Cons x xs)
  show ?case
  proof (cases "x = (k, v)")
    case True
    with Cons.prems have "k \<notin> fst ` set xs" by force
    then show ?thesis using True by (simp add: map_of_fold_update_notin update_conv')
  next
    case False
    with Cons show ?thesis by auto
  qed
qed

lemma distinct_object_assign:
  "distinct (map fst t) \<Longrightarrow> distinct (map fst (object_assign t s))"
proof -
  have "distinct (map fst t) \<Longrightarrow> distinct (map fst (fold (\<lambda>(k, v). AList.update k v) xs t))"
    for xs :: "(string \<times> 'a) list"
    by (induction xs arbitrary: t) (auto simp: distinct_update)
  then show "distinct (map fst t) \<Longrightarrow> distinct (map fst (object_assign t s))"
    by (simp add: object_assign_def)
qed

lemma map_of_object_assign_in:
  assumes "distinct (map fst s)" and "map_of s k = Some v"
  shows "map_of (object_assign t s) k = Some v"
proof -
  have "(k, v) \<in> set (object_entries s)"
    using assms(2) by (simp add: set_object_entries map_of_SomeD)
  with map_of_fold_update_in [where f = "\<lambda>v. v", OF distinct_object_entries [OF assms(1)]]
  show ?thesis by (simp add: object_assign_def)
qed

text \<open>
  C4. A stream declared for this peer under a name wins over the shared one of that
  name: when the private declarations can be awaited, \<^verbatim>\<open>connect()\<close> awaits
  the private promise under that name and no other,
  the stream it resolves to is added to the peer connection, and the stream
  descriptor records the id of that stream under the name.
\<close>

theorem private_stream_overrides_shared:
  assumes "connect_p p = None"
      and "distinct (map fst (private_streams p))"
      and "map_of (private_streams p) a = Some spB"
      and "entries = object_entries (object_assign (object_assign [] (local_streams p)) (private_streams p))"
      and "length ss = length entries"
      and "\<forall>i<length entries. \<forall>s. snd (entries ! i) = Resolved s \<longrightarrow> ss ! i = s"
      and "set order = {..<length entries}"
      and "p' = peer_run p (CallConnect # map (\<lambda>i. StreamSettled i (Fulfilled (ss ! i))) order @ [AllStreamsThen])"
      and "list_all (\<lambda>(name, stream). thenable stream) (private_streams p)"
  shows "\<exists>i<length entries. entries ! i = (a, spB)
           \<and> (\<forall>j<length entries. fst (entries ! j) = a \<longrightarrow> j = i)
           \<and> PcAddStream (ss ! i) \<in> set (effects p')
           \<and> map_of (streams_desc p') a = Some (stream_id (ss ! i))"
proof -
  let ?obj = "object_assign (object_assign [] (local_streams p)) (private_streams p)"
  have d: "distinct (map fst ?obj)" by (simp add: distinct_object_assign)
  then have de: "distinct (map fst entries)"
    unfolding assms(4) by (rule distinct_object_entries)
  have "map_of ?obj a = Some spB"
    using assms(2,3) by (rule map_of_object_assign_in)
  then have "(a, spB) \<in> set entries"
    unfolding assms(4) by (simp add: set_object_entries map_of_SomeD)
  then obtain i where i: "i < length entries" "entries ! i = (a, spB)"
    by (auto simp: in_set_conv_nth)
  have uniq: "\<forall>j<length entries. fst (entries ! j) = a \<longrightarrow> j = i"
  proof (intro allI impI)
    fix j assume j: "j < length entries" "fst (entries ! j) = a"
    then have "map fst entries ! j = map fst entries ! i" using i by simp
    with de i j nth_eq_iff_index_eq [of "map fst entries" j i] show "j = i" by simp
  qed
  note cp = connect_run_fields [OF assms(1) assms(4) assms(5) assms(6) assms(7) refl assms(8)
      assms(9), of "Fulfilled JUndefined"]
  have mem: "PcAddStream (ss ! i) \<in> set (effects p')"
    using cp i assms(5) by auto
  have dz: "distinct (map fst (zip (map fst entries) ss))"
    using de assms(5) by simp
  have "(a, ss ! i) \<in> set (zip (map fst entries) ss)"
    using i assms(5) by (auto simp: in_set_zip intro!: exI [of _ i])
  from map_of_fold_update_in [OF dz this, of stream_id]
  have "map_of (streams_desc p') a = Some (stream_id (ss ! i))"
    using cp by simp
  with i uniq mem show ?thesis by blast
qed

theorem private_stream_overrides_shared_witness:
  "map_of (local_streams (peer_step (RemotePeer_init [(''a'', Resolved (Stream ''idA''))] [] (JBool False))
       (CallAddStream (JStr ''a'') (JStream (Stream ''idB''))))) ''a''
     = Some (Resolved (Stream ''idA''))
   \<and> map_of (private_streams (peer_step (RemotePeer_init [(''a'', Resolved (Stream ''idA''))] [] (JBool False))
       (CallAddStream (JStr ''a'') (JStream (Stream ''idB''))))) ''a''
     = Some (Resolved (Stream ''idB''))
   \<and> PcAddStream (Stream ''idB'') \<in> set (effects (peer_run
        (peer_step (RemotePeer_init [(''a'', Resolved (Stream ''idA''))] [] (JBool False))
           (CallAddStream (JStr ''a'') (JStream (Stream ''idB''))))
        (CallConnect # map (\<lambda>i. StreamSettled i (Fulfilled ([Stream ''idB''] ! i))) [0]
         @ [AllStreamsThen])))
   \<and> map_of (streams_desc (peer_run
        (peer_step (RemotePeer_init [(''a'', Resolved (Stream ''idA''))] [] (JBool False))
           (CallAddStream (JStr ''a'') (JStream (Stream ''idB''))))
        (CallConnect # map (\<lambda>i. StreamSettled i (Fulfilled ([Stream ''idB''] ! i))) [0]
         @ [AllStreamsThen]))) ''a''
     = Some ''idB''"
proof -
  let ?p = "peer_step (RemotePeer_init [(''a'', Resolved (Stream ''idA''))] [] (JBool False))
       (CallAddStream (JStr ''a'') (JStream (Stream ''idB'')))"
  let ?ss = "[Stream ''idB'']"
  have p: "?p = (RemotePeer_init [(''a'', Resolved (Stream ''idA''))] [] (JBool False))
      \<lparr>private_streams := [(''a'', Resolved (Stream ''idB''))]\<rparr>"
    by (simp add: addStream_def saveStream_def RemotePeer_init_def)
  have h1: "connect_p ?p = None" unfolding p by (simp add: RemotePeer_init_def)
  have h2: "distinct (map fst (private_streams ?p))" unfolding p by simp
  have h3: "map_of (private_streams ?p) ''a'' = Some (Resolved (Stream ''idB''))"
    unfolding p by simp
  have l: "map_of (local_streams ?p) ''a'' = Some (Resolved (Stream ''idA''))"
    unfolding p by (simp add: RemotePeer_init_def)
  have ent: "object_entries (object_assign (object_assign [] (local_streams ?p)) (private_streams ?p))
      = [(''a'', Resolved (Stream ''idB''))]"
    by code_simp
  have h5: "length ?ss
      = length (object_entries (object_assign (object_assign [] (local_streams ?p)) (private_streams ?p)))"
    unfolding ent by simp
  have h6: "\<forall>i<length (object_entries (object_assign (object_assign [] (local_streams ?p)) (private_streams ?p))).
      \<forall>s. snd (object_entries (object_assign (object_assign [] (local_streams ?p)) (private_streams ?p)) ! i)
            = Resolved s \<longrightarrow> ?ss ! i = s"
    unfolding ent by simp
  have h7: "set [0::nat]
      = {..<length (object_entries (object_assign (object_assign [] (local_streams ?p)) (private_streams ?p)))}"
    unfolding ent by auto
  have h9: "list_all (\<lambda>(name, stream). thenable stream) (private_streams ?p)"
    unfolding p by simp
  note t = private_stream_overrides_shared [OF h1 h2 h3 refl h5 h6 h7 refl h9]
  from t l h3 show ?thesis unfolding ent by auto
qed

section \<open>One connect per peer session\<close>
























section \<open>Automatic connect and the private mutators\<close>

lemma is_false_iff: "is_false v = (v = JBool False)"
  by (cases v) auto

text \<open>
  C6. With \<^verbatim>\<open>auto_connect\<close> true or absent the constructor calls
  \<^verbatim>\<open>connect()\<close>: the call returns, the new peer is the initial peer after that
  call and holds the promise. With \<^verbatim>\<open>auto_connect\<close> false it does not: the new peer is the initial
  one, holds no promise and has made no call, and a later call of
  \<^verbatim>\<open>connect()\<close> builds the promise.
\<close>

theorem constructor_auto_connect:
  "RemotePeer_connect (RemotePeer_init ls lc (JBool True))
     = Inr (0, RemotePeer_constructor ls lc (JBool True))
   \<and> connect_p (RemotePeer_constructor ls lc (JBool True)) \<noteq> None
   \<and> RemotePeer_connect (RemotePeer_init ls lc JUndefined)
     = Inr (0, RemotePeer_constructor ls lc JUndefined)
   \<and> connect_p (RemotePeer_constructor ls lc JUndefined) \<noteq> None
   \<and> RemotePeer_constructor ls lc (JBool False) = RemotePeer_init ls lc (JBool False)
   \<and> connect_p (RemotePeer_constructor ls lc (JBool False)) = None
   \<and> effects (RemotePeer_constructor ls lc (JBool False)) = []
   \<and> connect_p (peer_step (RemotePeer_constructor ls lc (JBool False)) CallConnect) \<noteq> None"
  by (simp add: RemotePeer_constructor_def RemotePeer_init_def RemotePeer_connect_def Let_def)

text \<open>
  C5. Unless \<^verbatim>\<open>auto_connect\<close> is \<^verbatim>\<open>false\<close> itself,
  \<^verbatim>\<open>addStream\<close> and \<^verbatim>\<open>addDataChannel\<close> return a promise that is already
  rejected, with their message, and leave every field of the peer as it was.
\<close>

theorem mutators_rejected:
  assumes "auto_connect p \<noteq> JBool False"
  shows "addStream name obj p = Inr (Rejected_promise (JStr add_streams_message), p)
       \<and> addDataChannel name desc p = (Rejected_promise (JStr add_channels_message), p)"
  using assms by (simp add: addStream_def addDataChannel_def is_false_iff)

theorem mutators_rejected_witness:
  "auto_connect (RemotePeer_constructor [] [] (JNum 0)) \<noteq> JBool False
   \<and> addStream (JStr ''cam'') (JStream (Stream ''s1'')) (RemotePeer_constructor [] [] (JNum 0))
       = Inr (Rejected_promise (JStr add_streams_message), RemotePeer_constructor [] [] (JNum 0))
   \<and> addDataChannel (JStr ''chat'') JUndefined (RemotePeer_constructor [] [] (JNum 0))
       = (Rejected_promise (JStr add_channels_message), RemotePeer_constructor [] [] (JNum 0))"
proof -
  have h: "auto_connect (RemotePeer_constructor [] [] (JNum 0)) \<noteq> JBool False"
    by (simp add: RemotePeer_constructor_def RemotePeer_init_def)
  from mutators_rejected [OF h] h show ?thesis by simp
qed

text \<open>
  C9. On a peer with \<^verbatim>\<open>auto_connect\<close> false, \<^verbatim>\<open>addDataChannel\<close> with a
  name and no options (\<^verbatim>\<open>undefined\<close> or \<^verbatim>\<open>null\<close>) registers
  \<^verbatim>\<open>{ordered: true}\<close> under that name in \<^verbatim>\<open>private_channels\<close> and returns
  the channel promise of that name.
\<close>

theorem addDataChannel_default_options:
  assumes "auto_connect p = JBool False" and "is_nullish desc"
  shows "fst (addDataChannel (JStr name) desc p) = Promise_of (Collection_get name)
       \<and> map_of (private_channels (snd (addDataChannel (JStr name) desc p))) name
           = Some (JObj [(''ordered'', JBool True)])"
  using assms by (simp add: addDataChannel_def update_conv')

theorem addDataChannel_default_options_witness:
  "auto_connect (RemotePeer_constructor [] [] (JBool False)) = JBool False
   \<and> is_nullish JUndefined
   \<and> private_channels (snd (addDataChannel (JStr ''chat'') JUndefined
         (RemotePeer_constructor [] [] (JBool False))))
       = [(''chat'', JObj [(''ordered'', JBool True)])]"
proof -
  have h: "auto_connect (RemotePeer_constructor [] [] (JBool False)) = JBool False"
    by (simp add: RemotePeer_constructor_def RemotePeer_init_def)
  have n: "is_nullish JUndefined" by simp
  have e: "private_channels (RemotePeer_constructor [] [] (JBool False)) = []"
    by (simp add: RemotePeer_constructor_def RemotePeer_init_def)
  from addDataChannel_default_options [OF h n, of "''chat''"] h e show ?thesis
    by (simp add: addDataChannel_def)
qed

section \<open>The CoffeeScript and the TypeScript peer\<close>

lemma update_fresh: "k \<notin> fst ` set t \<Longrightarrow> AList.update k v t = t @ [(k, v)]"
  by (induction t) auto

lemma fold_update_fresh:
  "distinct (map fst (t @ xs)) \<Longrightarrow> fold (\<lambda>(k, v). AList.update k v) xs t = t @ xs"
proof (induction xs arbitrary: t)
  case Nil
  then show ?case by simp
next
  case (Cons x xs)
  obtain k v where x: "x = (k, v)" by (cases x)
  from Cons.prems x have "k \<notin> fst ` set t" by auto
  then have u: "AList.update k v t = t @ [(k, v)]" by (rule update_fresh)
  from Cons.prems x have "distinct (map fst ((t @ [(k, v)]) @ xs))" by simp
  from Cons.IH [OF this] u x show ?case by simp
qed

lemma object_entries_idem: "object_entries (object_entries obj) = object_entries obj"
proof -
  let ?P = "\<lambda>(k, v). is_array_index k"
  let ?N = "\<lambda>(k, v). \<not> is_array_index k"
  let ?f = "\<lambda>(k, v). digits_value k"
  let ?S = "sort_key ?f (filter ?P obj)"
  let ?B = "filter ?N obj"
  have 1: "filter ?P ?S = ?S" by (rule filter_True) auto
  have 2: "filter ?P ?B = []" by (auto simp: filter_empty_conv)
  have 3: "filter ?N ?S = []" by (auto simp: filter_empty_conv)
  have 4: "filter ?N ?B = ?B" by (rule filter_True) auto
  have 5: "sort_key ?f ?S = ?S" by (rule sort_key_id_if_sorted) simp
  have a: "filter ?P (?S @ ?B) = ?S" by (simp only: filter_append 1 2 append_Nil2)
  have b: "filter ?N (?S @ ?B) = ?B" by (simp only: filter_append 3 4 append_Nil)
  have "object_entries (?S @ ?B) = sort_key ?f (filter ?P (?S @ ?B)) @ filter ?N (?S @ ?B)"
    by (simp only: object_entries_def)
  also have "\<dots> = ?S @ ?B" by (simp only: a b 5)
  finally show ?thesis by (simp only: object_entries_def)
qed

lemma object_assign_Nil: "object_assign t [] = t"
  by (simp add: object_assign_def object_entries_def)

lemma merged_without_private:
  assumes "distinct (map fst obj)"
  shows "object_entries (object_assign (object_assign [] obj) []) = object_entries obj"
proof -
  have "distinct (map fst ([] @ object_entries obj))"
    using assms by (simp add: distinct_object_entries)
  from fold_update_fresh [OF this]
  have "object_assign [] obj = object_entries obj" by (simp add: object_assign_def)
  then show ?thesis by (simp add: object_assign_Nil object_entries_idem)
qed

lemma coffee_connect_then_fields:
  assumes "chans = object_entries (c_local_channels p)"
  shows "c_effects (coffee_connect_then streams p)
           = c_effects p @ map (\<lambda>(n, s). PcAddStream s) streams
             @ map (\<lambda>(n, opts). PcAddDataChannel n opts) chans
             @ [SetLocal (fold (\<lambda>(n, opts). AList.update n opts) chans (c_channels_desc p)), PcConnect]"
    and "c_channels_desc (coffee_connect_then streams p)
           = fold (\<lambda>(n, opts). AList.update n opts) chans (c_channels_desc p)"
    and "c_connect_p (coffee_connect_then streams p) = map_option (\<lambda>(q, c). (q, Transport)) (c_connect_p p)"
    and "c_allocated (coffee_connect_then streams p) = c_allocated p"
    and "c_local_streams (coffee_connect_then streams p) = c_local_streams p"
    and "c_local_channels (coffee_connect_then streams p) = c_local_channels p"
proof -
  let ?g = "\<lambda>(name, stream) p.
              p\<lparr>c_effects := c_effects p @ [PcAddStream stream],
                c_streams_desc := AList.update name (stream_id stream) (c_streams_desc p)\<rparr>"
  let ?h = "\<lambda>(name, options) p.
              p\<lparr>c_effects := c_effects p @ [PcAddDataChannel name options],
                c_channels_desc := AList.update name options (c_channels_desc p)\<rparr>"
  have g: "c_effects (fold ?g xs q) = c_effects q @ map (\<lambda>(n, s). PcAddStream s) xs
      \<and> c_channels_desc (fold ?g xs q) = c_channels_desc q
      \<and> c_local_channels (fold ?g xs q) = c_local_channels q
      \<and> c_local_streams (fold ?g xs q) = c_local_streams q
      \<and> c_connect_p (fold ?g xs q) = c_connect_p q
      \<and> c_allocated (fold ?g xs q) = c_allocated q" for xs q
    by (induction xs arbitrary: q) (auto simp: case_prod_beta)
  have h: "c_effects (fold ?h xs q) = c_effects q @ map (\<lambda>(n, opts). PcAddDataChannel n opts) xs
      \<and> c_channels_desc (fold ?h xs q) = fold (\<lambda>(n, opts). AList.update n opts) xs (c_channels_desc q)
      \<and> c_local_channels (fold ?h xs q) = c_local_channels q
      \<and> c_local_streams (fold ?h xs q) = c_local_streams q
      \<and> c_connect_p (fold ?h xs q) = c_connect_p q
      \<and> c_allocated (fold ?h xs q) = c_allocated q" for xs q
    by (induction xs arbitrary: q) (auto simp: case_prod_beta)
  show "c_effects (coffee_connect_then streams p)
           = c_effects p @ map (\<lambda>(n, s). PcAddStream s) streams
             @ map (\<lambda>(n, opts). PcAddDataChannel n opts) chans
             @ [SetLocal (fold (\<lambda>(n, opts). AList.update n opts) chans (c_channels_desc p)), PcConnect]"
    and "c_channels_desc (coffee_connect_then streams p)
           = fold (\<lambda>(n, opts). AList.update n opts) chans (c_channels_desc p)"
    and "c_connect_p (coffee_connect_then streams p) = map_option (\<lambda>(q, c). (q, Transport)) (c_connect_p p)"
    and "c_allocated (coffee_connect_then streams p) = c_allocated p"
    and "c_local_streams (coffee_connect_then streams p) = c_local_streams p"
    and "c_local_channels (coffee_connect_then streams p) = c_local_channels p"
    using assms by (simp_all add: coffee_connect_then_def Let_def g h)
qed

lemma coffee_run_snoc: "coffee_run c (evs @ [e]) = coffee_step (coffee_run c evs) e"
  by (simp add: coffee_run_def)

lemma coffee_run_Nil: "coffee_run c [] = c"
  by (simp add: coffee_run_def)

lemma same_session_connect:
  assumes "same_session c p"
  shows "same_session (coffee_step c CallConnect) (peer_step p CallConnect)"
proof -
  have "object_entries (object_assign (object_assign [] (local_streams p)) (private_streams p))
        = object_entries (c_local_streams c)"
    using assms merged_without_private [of "local_streams p"] by (simp add: same_session_def)
  with assms show ?thesis
    by (cases "connect_p p")
      (auto simp: same_session_def coffee_connect_def RemotePeer_connect_def Let_def)
qed

lemma connect_then_frame:
  "local_streams (connect_then streams p) = local_streams p
   \<and> local_channels (connect_then streams p) = local_channels p
   \<and> private_streams (connect_then streams p) = private_streams p
   \<and> private_channels (connect_then streams p) = private_channels p"
proof -
  let ?g = "\<lambda>(name, stream) p.
             p\<lparr>effects := effects p @ [PcAddStream stream],
               streams_desc := AList.update name (stream_id stream) (streams_desc p)\<rparr>"
  let ?h = "\<lambda>(name, options) p.
             p\<lparr>effects := effects p @ [PcAddDataChannel name options],
               channels_desc := AList.update name options (channels_desc p)\<rparr>"
  have g: "local_streams (fold ?g xs q) = local_streams q
      \<and> local_channels (fold ?g xs q) = local_channels q
      \<and> private_streams (fold ?g xs q) = private_streams q
      \<and> private_channels (fold ?g xs q) = private_channels q" for xs and q :: remote_peer
    by (induction xs arbitrary: q) (auto simp: case_prod_beta)
  have h: "local_streams (fold ?h xs q) = local_streams q
      \<and> local_channels (fold ?h xs q) = local_channels q
      \<and> private_streams (fold ?h xs q) = private_streams q
      \<and> private_channels (fold ?h xs q) = private_channels q" for xs and q :: remote_peer
    by (induction xs arbitrary: q) (auto simp: case_prod_beta)
  show ?thesis
    by (simp add: connect_then_def Let_def create_data_channels_def add_all_streams_def g h)
qed

lemma same_session_then:
  assumes "same_session c p"
  shows "same_session (coffee_all_streams_then c) (all_streams_then p)"
proof (cases "connect_p p")
  case None
  with assms show ?thesis
    by (simp add: same_session_def coffee_all_streams_then_def all_streams_then_def)
next
  case (Some qc)
  obtain q ch where qc: "qc = (q, ch)" by (cases qc)
  show ?thesis
  proof (cases ch)
    case (Awaiting entries results)
    show ?thesis
    proof (cases "those results")
      case None
      with assms Some qc Awaiting show ?thesis
        by (simp add: same_session_def coffee_all_streams_then_def all_streams_then_def)
    next
      case (Some ss)
      let ?zc = "zip (coffee_stream_names entries) ss"
      let ?zp = "zip (map fst entries) ss"
      have ch: "object_entries (object_assign (object_assign [] (local_channels p)) (private_channels p))
            = object_entries (c_local_channels c)"
        using assms merged_without_private [of "local_channels p"] by (simp add: same_session_def)
      have len: "length (coffee_stream_names entries) = length (map fst entries)"
        by (simp add: coffee_stream_names_def)
      have z: "map (\<lambda>(n, s). PcAddStream s) ?zc = map (\<lambda>(n, s). PcAddStream s) ?zp"
        using len by (intro nth_equalityI) auto
      note fc = coffee_connect_then_fields [OF refl, where p = c and streams = ?zc]
      note fp = connect_then_fields [OF ch [symmetric], where streams = ?zp]
      note lp = connect_then_frame [of ?zp p]
      have "same_session (coffee_connect_then ?zc c) (connect_then ?zp p)"
        using assms unfolding same_session_def by (simp add: fc fp lp z)
      with assms \<open>connect_p p = Some qc\<close> qc Awaiting Some show ?thesis
        by (simp add: same_session_def coffee_all_streams_then_def all_streams_then_def)
    qed
  next
    case Transport
    with assms Some qc show ?thesis
      by (simp add: same_session_def coffee_all_streams_then_def all_streams_then_def)
  next
    case (Done out)
    with assms Some qc show ?thesis
      by (simp add: same_session_def coffee_all_streams_then_def all_streams_then_def)
  qed
qed

lemma same_session_step:
  assumes "same_session c p" and "shared_event e"
  shows "same_session (coffee_step c e) (peer_step p e)"
proof (cases e)
  case CallConnect
  with assms show ?thesis by (simp only: same_session_connect)
next
  case (CallAddStream name obj)
  with assms show ?thesis by simp
next
  case (CallAddDataChannel name desc)
  with assms show ?thesis by simp
next
  case CallClose
  with assms show ?thesis
    by (simp add: same_session_def coffee_close_def RemotePeer_close_def)
next
  case (LocalChanged streams channels)
  with assms show ?thesis by (simp add: same_session_def)
next
  case (StreamSettled i out)
  with assms show ?thesis
    by (cases "connect_p p")
      (auto simp: same_session_def coffee_stream_settled_def stream_settled_def
        split: chain.splits outcome.splits)
next
  case AllStreamsThen
  with assms show ?thesis by (simp add: same_session_then)
next
  case (TransportSettled out)
  with assms show ?thesis
    by (cases "connect_p p")
      (auto simp: same_session_def coffee_transport_settled_def transport_settled_def
        split: chain.splits)
qed

lemma same_session_run:
  "same_session c p \<Longrightarrow> list_all shared_event evs \<Longrightarrow>
     same_session (coffee_run c evs) (peer_run p evs)"
  by (induction evs rule: rev_induct)
    (simp_all add: coffee_run_Nil peer_run_Nil coffee_run_snoc peer_run_snoc same_session_step)

lemma same_session_init:
  "distinct (map fst ls) \<Longrightarrow> distinct (map fst lc) \<Longrightarrow>
     same_session (coffee_init ls lc ac) (RemotePeer_init ls lc ac')"
  by (simp add: same_session_def coffee_init_def RemotePeer_init_def)

text \<open>
  C10, as amended. Started on the same shared streams and channels, and over the same
  events without calls of \<^verbatim>\<open>addStream\<close> or \<^verbatim>\<open>addDataChannel\<close>, the
  CoffeeScript and the TypeScript peer hold the same promise chain (they await the same
  stream promises in the same order, and settle alike), have made the same calls on
  the peer connection and the channel collection in the same order, and hold the same
  channel descriptor. With \<^verbatim>\<open>auto_connect\<close> \<^verbatim>\<open>null\<close> or absent both
  constructors call \<^verbatim>\<open>connect()\<close>.
\<close>

theorem coffee_and_ts_agree_without_private:
  assumes "distinct (map fst ls)" and "distinct (map fst lc)" and "list_all shared_event evs"
      and "c = coffee_run (coffee_init ls lc ac) evs"
      and "p = peer_run (RemotePeer_init ls lc ac) evs"
  shows "c_connect_p c = connect_p p \<and> c_effects c = effects p
       \<and> c_channels_desc c = channels_desc p
       \<and> (is_nullish ac \<longrightarrow>
            coffee_constructor ls lc ac = coffee_step (coffee_init ls lc ac) CallConnect
            \<and> RemotePeer_constructor ls lc ac = peer_step (RemotePeer_init ls lc ac) CallConnect)"
proof -
  from same_session_run [OF same_session_init [OF assms(1,2)] assms(3), of ac ac]
  have "same_session c p" unfolding assms(4,5) .
  then show ?thesis
    by (simp add: same_session_def coffee_constructor_def RemotePeer_constructor_def
        coffee_init_def RemotePeer_init_def Let_def)
qed

theorem coffee_and_ts_agree_without_private_witness:
  "distinct (map fst [(''cam'', Resolved (Stream ''s1'')), (''mic'', Given (JPromise 7))])
   \<and> list_all shared_event [CallConnect, StreamSettled 1 (Fulfilled (Stream ''s2'')),
        StreamSettled 0 (Fulfilled (Stream ''s1'')), AllStreamsThen]
   \<and> c_effects (coffee_run (coffee_init [(''cam'', Resolved (Stream ''s1'')), (''mic'', Given (JPromise 7))]
          [(''data'', JNull)] JNull)
        [CallConnect, StreamSettled 1 (Fulfilled (Stream ''s2'')),
         StreamSettled 0 (Fulfilled (Stream ''s1'')), AllStreamsThen])
     = effects (peer_run (RemotePeer_init [(''cam'', Resolved (Stream ''s1'')), (''mic'', Given (JPromise 7))]
          [(''data'', JNull)] JNull)
        [CallConnect, StreamSettled 1 (Fulfilled (Stream ''s2'')),
         StreamSettled 0 (Fulfilled (Stream ''s1'')), AllStreamsThen])
   \<and> effects (peer_run (RemotePeer_init [(''cam'', Resolved (Stream ''s1'')), (''mic'', Given (JPromise 7))]
          [(''data'', JNull)] JNull)
        [CallConnect, StreamSettled 1 (Fulfilled (Stream ''s2'')),
         StreamSettled 0 (Fulfilled (Stream ''s1'')), AllStreamsThen])
     = [PcAddStream (Stream ''s1''), PcAddStream (Stream ''s2''), PcAddDataChannel ''data'' JNull,
        SetLocal [(''data'', JNull)], PcConnect]
   \<and> coffee_constructor [(''cam'', Resolved (Stream ''s1'')), (''mic'', Given (JPromise 7))]
          [(''data'', JNull)] JNull
     = coffee_step (coffee_init [(''cam'', Resolved (Stream ''s1'')), (''mic'', Given (JPromise 7))]
          [(''data'', JNull)] JNull) CallConnect"
proof -
  let ?ls = "[(''cam'', Resolved (Stream ''s1'')), (''mic'', Given (JPromise 7))]"
  let ?lc = "[(''data'', JNull)]"
  let ?evs = "[CallConnect, StreamSettled 1 (Fulfilled (Stream ''s2'')),
         StreamSettled 0 (Fulfilled (Stream ''s1'')), AllStreamsThen]"
  have h1: "distinct (map fst ?ls)" by simp
  have h2: "distinct (map fst ?lc)" by simp
  have h3: "list_all shared_event ?evs" by simp
  have n: "is_nullish JNull" by simp
  have e: "effects (peer_run (RemotePeer_init ?ls ?lc JNull) ?evs)
     = [PcAddStream (Stream ''s1''), PcAddStream (Stream ''s2''), PcAddDataChannel ''data'' JNull,
        SetLocal [(''data'', JNull)], PcConnect]"
    by code_simp
  from coffee_and_ts_agree_without_private [OF h1 h2 h3 refl refl, of JNull] h1 h3 n e
  show ?thesis by simp
qed

text \<open>
  C10, as stated, fails. With \<^verbatim>\<open>auto_connect\<close> true the TypeScript constructor
  calls \<^verbatim>\<open>connect()\<close> and the CoffeeScript one does not; and a channel added for
  one peer is created by the TypeScript \<^verbatim>\<open>connect()\<close>, while the CoffeeScript
  class has no private channels.
\<close>

theorem coffee_and_ts_differ:
  "connect_p (RemotePeer_constructor [] [] (JBool True)) \<noteq> None
   \<and> c_connect_p (coffee_constructor [] [] (JBool True)) = None
   \<and> effects (peer_run (RemotePeer_init [] [] (JBool False))
        [CallAddDataChannel (JStr ''chat'') JUndefined, CallConnect, AllStreamsThen])
      = [PcAddDataChannel ''chat'' (JObj [(''ordered'', JBool True)]),
         SetLocal [(''chat'', JObj [(''ordered'', JBool True)])], PcConnect]
   \<and> c_effects (coffee_run (coffee_init [] [] (JBool False))
        [CallAddDataChannel (JStr ''chat'') JUndefined, CallConnect, AllStreamsThen])
      = [SetLocal [], PcConnect]"
  by code_simp

text \<open>
  The stream descriptor is not part of that agreement: with two shared streams the
  CoffeeScript peer records both under the last name.
\<close>

lemma coffee_names_every_stream_alike:
  "c_streams_desc (coffee_run (coffee_init [(''cam'', Resolved (Stream ''s1'')), (''mic'', Given (JPromise 7))]
          [] JNull)
        [CallConnect, StreamSettled 1 (Fulfilled (Stream ''s2'')),
         StreamSettled 0 (Fulfilled (Stream ''s1'')), AllStreamsThen])
     = [(''mic'', ''s2'')]
   \<and> streams_desc (peer_run (RemotePeer_init [(''cam'', Resolved (Stream ''s1'')), (''mic'', Given (JPromise 7))]
          [] JNull)
        [CallConnect, StreamSettled 1 (Fulfilled (Stream ''s2'')),
         StreamSettled 0 (Fulfilled (Stream ''s1'')), AllStreamsThen])
     = [(''cam'', ''s1''), (''mic'', ''s2'')]"
  by code_simp

section \<open>The room\<close>

lemma room_run_snoc: "room_run r (evs @ [e]) = room_step (room_run r evs) e"
  by (simp add: room_run_def)

lemma room_run_Nil: "room_run r [] = r"
  by (simp add: room_run_def)

lemma never_joined_step: "never_joined r \<Longrightarrow> never_joined (room_step r e)"
  by (cases e)
    (auto simp: never_joined_def Room_connect_def Room_leave_def join_settled_def
      join_reaction_def on_signaling_closed_def on_peer_joined_def on_peer_left_def
      setState_def Let_def split: option.splits promise_state.splits outcome.splits)

lemma never_joined_run: "never_joined (room_run (Room_constructor ac ls lc) evs)"
proof (induction evs rule: rev_induct)
  case Nil
  show ?case by (simp add: room_run_Nil never_joined_def Room_constructor_def)
next
  case (snoc e evs)
  then show ?case by (simp add: room_run_snoc never_joined_step)
qed

lemma connect_first:
  assumes "join_p r = None" "state r = Idle" "returned r = []"
  shows "state (snd (Room_connect r)) = Connecting
     \<and> signaling_calls (snd (Room_connect r)) = signaling_calls r @ [SignalingConnect]
     \<and> join_p (snd (Room_connect r)) = Some Pending
     \<and> state (room_run r [CallRoomConnect, JoinSettled (Fulfilled v), JoinReaction]) = Connected
     \<and> returned (room_run r [CallRoomConnect, JoinSettled (Fulfilled v), JoinReaction])
           ! fst (Room_connect r) = Some (Fulfilled JUndefined)
     \<and> state (room_run r [CallRoomConnect, JoinSettled (Rejected err), JoinReaction]) = Failed
     \<and> returned (room_run r [CallRoomConnect, JoinSettled (Rejected err), JoinReaction])
           ! fst (Room_connect r) = Some (Rejected err)"
  using assms
  by (simp add: room_run_def Room_connect_def join_settled_def join_reaction_def
      setState_def Let_def)

lemma room_inv_step: "room_inv r \<Longrightarrow> room_inv (room_step r e)"
proof (cases e)
  case CallRoomConnect
  assume "room_inv r"
  then show ?thesis using CallRoomConnect
    by (cases "join_p r") (auto simp: room_inv_def Room_connect_def setState_def Let_def)
next
  case CallLeave
  assume "room_inv r"
  then show ?thesis using CallLeave by (simp add: room_inv_def Room_leave_def)
next
  case (JoinSettled out)
  assume "room_inv r"
  then show ?thesis using JoinSettled
    by (cases out) (auto simp: room_inv_def join_settled_def)
next
  case JoinReaction
  assume "room_inv r"
  then show ?thesis using JoinReaction
    by (auto simp: room_inv_def join_reaction_def setState_def Let_def
        split: option.splits promise_state.splits outcome.splits)
next
  case SignalingClosed
  assume "room_inv r"
  then show ?thesis using SignalingClosed
    by (cases "join_p r" rule: states_for.cases)
      (auto simp: room_inv_def on_signaling_closed_def setState_def Let_def)
next
  case (SignalingPeerJoined ident)
  assume "room_inv r"
  then show ?thesis using SignalingPeerJoined
    by (simp add: room_inv_def on_peer_joined_def Let_def)
next
  case (PeerLeft ident)
  assume "room_inv r"
  then show ?thesis using PeerLeft
    by (simp add: room_inv_def on_peer_left_def Let_def)
qed

lemma room_inv_run: "room_inv (room_run (Room_constructor ac ls lc) evs)"
proof (induction evs rule: rev_induct)
  case Nil
  show ?case by (simp add: room_run_Nil room_inv_def Room_constructor_def)
next
  case (snoc e evs)
  then show ?case by (simp add: room_run_snoc room_inv_step)
qed

lemma room_step_moves:
  assumes "room_inv r"
  shows "state (room_step r e) = state r \<or> (state r, state (room_step r e)) \<in> set room_moves"
proof (cases e)
  case CallRoomConnect
  then show ?thesis using assms
    by (cases "join_p r")
      (auto simp: room_inv_def room_moves_def Room_connect_def setState_def Let_def)
next
  case CallLeave
  then show ?thesis by (simp add: Room_leave_def)
next
  case (JoinSettled out)
  then show ?thesis by (simp add: join_settled_def)
next
  case JoinReaction
  then show ?thesis using assms
    by (cases "join_p r" rule: states_for.cases)
      (auto simp: room_inv_def room_moves_def join_reaction_def setState_def Let_def)
next
  case SignalingClosed
  then show ?thesis
    by (auto simp: room_moves_def on_signaling_closed_def setState_def Let_def)
next
  case (SignalingPeerJoined ident)
  then show ?thesis by (simp add: on_peer_joined_def Let_def)
next
  case (PeerLeft ident)
  then show ?thesis by (simp add: on_peer_left_def Let_def)
qed

lemma failed_stays_step:
  assumes "room_inv r" and "state r = Failed"
  shows "state (room_step r e) = Failed"
  using room_step_moves [OF assms(1), of e] assms(2) by (auto simp: room_moves_def)

lemma failed_stays:
  assumes "r = room_run (Room_constructor ac ls lc) evs" and "state r = Failed"
  shows "state (room_run r evs') = Failed"
proof (induction evs' rule: rev_induct)
  case Nil
  show ?case using assms(2) by (simp add: room_run_Nil)
next
  case (snoc e evs')
  have "room_run r evs' = room_run (Room_constructor ac ls lc) (evs @ evs')"
    unfolding assms(1) by (simp add: room_run_def)
  then have "room_inv (room_run r evs')" by (simp add: room_inv_run)
  from failed_stays_step [OF this snoc] show ?case by (simp add: room_run_snoc)
qed

lemma connecting_not_reentered:
  assumes "room_inv r" and "state r \<noteq> Idle"
  shows "state (room_step r e) = state r \<or> state (room_step r e) \<noteq> Connecting"
  using room_step_moves [OF assms(1), of e] assms(2) by (auto simp: room_moves_def)

text \<open>
  C7. In a room on which \<^verbatim>\<open>connect()\<close> has not been called yet (after any events
  since its construction), the state is idle; the call moves it to connecting and
  calls the signaling's \<^verbatim>\<open>connect\<close>. When that promise is fulfilled the reaction
  moves the room to connected and fulfils the promise the call returned; when it is
  rejected the room moves to failed and the returned promise is rejected with the
  same reason.
\<close>

theorem room_connect_protocol:
  assumes "r = room_run (Room_constructor ac ls lc) evs" and "join_p r = None"
  shows "state r = Idle
     \<and> state (snd (Room_connect r)) = Connecting
     \<and> signaling_calls (snd (Room_connect r)) = signaling_calls r @ [SignalingConnect]
     \<and> join_p (snd (Room_connect r)) = Some Pending
     \<and> state (room_run r [CallRoomConnect, JoinSettled (Fulfilled v), JoinReaction]) = Connected
     \<and> returned (room_run r [CallRoomConnect, JoinSettled (Fulfilled v), JoinReaction])
           ! fst (Room_connect r) = Some (Fulfilled JUndefined)
     \<and> state (room_run r [CallRoomConnect, JoinSettled (Rejected err), JoinReaction]) = Failed
     \<and> returned (room_run r [CallRoomConnect, JoinSettled (Rejected err), JoinReaction])
           ! fst (Room_connect r) = Some (Rejected err)"
proof -
  have "never_joined r" using assms(1) never_joined_run by simp
  with assms(2) have *: "state r = Idle" "returned r = []"
    by (simp_all add: never_joined_def)
  from connect_first [OF assms(2) *, of v err] * show ?thesis by simp
qed

theorem room_connect_protocol_witness:
  "join_p (room_run (Room_constructor JUndefined [] [])
        [SignalingPeerJoined ''p1'', SignalingClosed]) = None
   \<and> state (room_run (Room_constructor JUndefined [] [])
        [SignalingPeerJoined ''p1'', SignalingClosed]) = Idle
   \<and> state (snd (Room_connect (room_run (Room_constructor JUndefined [] [])
        [SignalingPeerJoined ''p1'', SignalingClosed]))) = Connecting
   \<and> state (room_run (room_run (Room_constructor JUndefined [] [])
        [SignalingPeerJoined ''p1'', SignalingClosed])
        [CallRoomConnect, JoinSettled (Rejected (JStr ''refused'')), JoinReaction]) = Failed
   \<and> state (room_run (room_run (Room_constructor JUndefined [] [])
        [SignalingPeerJoined ''p1'', SignalingClosed])
        [CallRoomConnect, JoinSettled (Fulfilled JNull), JoinReaction]) = Connected"
proof -
  let ?r = "room_run (Room_constructor JUndefined [] [])
              [SignalingPeerJoined ''p1'', SignalingClosed]"
  have j: "join_p ?r = None"
    by (simp add: room_run_def Room_constructor_def on_peer_joined_def
        on_signaling_closed_def Let_def)
  from room_connect_protocol [OF refl j, of JNull "JStr ''refused''"] j
  show ?thesis by blast
qed

text \<open>
  C8. The handler of the signaling's \<^verbatim>\<open>'closed'\<close> empties the peer map, emits
  \<^verbatim>\<open>'closed'\<close>, and moves the room to closed exactly when it is connected: in
  every other state the state stays as it is and no state change is emitted.
\<close>

theorem signaling_closed_handler:
  "peers (on_signaling_closed r) = []
   \<and> emitted (on_signaling_closed r) =
       emitted r @ EmitClosed # (if state r = Connected then [EmitStateChanged Closed] else [])
   \<and> state (on_signaling_closed r) = (if state r = Connected then Closed else state r)
   \<and> (state (on_signaling_closed r) = state r) = (state r \<noteq> Connected)"
  by (simp add: on_signaling_closed_def setState_def Let_def)

text \<open>
  C2. The room state does not stay closed: after a successful \<^verbatim>\<open>connect()\<close> and
  the signaling's \<^verbatim>\<open>'closed'\<close> the room is closed, and one more call of
  \<^verbatim>\<open>connect()\<close> hangs new reactions on the fulfilled \<^verbatim>\<open>join_p\<close>, which
  set the state to connected again. By \<open>room_step_moves\<close> this is the only change
  of state outside the order idle, connecting, connected, with the exits to closed
  and failed; by \<open>failed_stays\<close> a failed room stays failed.
\<close>

theorem room_connected_again_after_closed:
  "state (room_run (Room_constructor JUndefined [] [])
     [CallRoomConnect, JoinSettled (Fulfilled JUndefined), JoinReaction, SignalingClosed])
     = Closed
   \<and> state (room_run (Room_constructor JUndefined [] [])
     [CallRoomConnect, JoinSettled (Fulfilled JUndefined), JoinReaction, SignalingClosed,
      CallRoomConnect, JoinReaction]) = Connected"
  by (simp add: room_run_def Room_constructor_def Room_connect_def setState_def
      join_settled_def join_reaction_def on_signaling_closed_def Let_def)

end
